theory Spec2Isabelle
  imports Complex_Main
begin

section \<open>Numbers, time and the operating system\<close>

text \<open>
  Python floats are modelled as reals (no rounding error, no NaN, no infinities) and
  Python's unbounded integers as \<open>int\<close>. \<open>py_int\<close> is Python's \<open>int(x)\<close> on a
  float: truncation toward zero.
\<close>

definition py_int :: "real \<Rightarrow> int" where
  "py_int x = (if 0 \<le> x then \<lfloor>x\<rfloor> else \<lceil>x\<rceil>)"

text \<open>
  The primitives of \<open>pyautogui\<close> that the controller calls. Each call either raises (the
  controller catches every exception) or succeeds and is appended to the trace of the
  environment. \<open>time.time()\<close> reads the next value of an arbitrary sequence of clock
  readings.
\<close>

datatype os_call =
    MoveTo int int
  | Click
  | RightClick
  | ScrollWheel int
  | MouseDown
  | MouseUp
  | Position
  | Hotkey string string
  | Press string

record env =
  clock :: "nat \<Rightarrow> real"
  reads :: nat
  cursor :: "int \<times> int"
  events :: "os_call list"
  raises :: "os_call \<Rightarrow> bool"

definition time_time :: "env \<Rightarrow> real \<times> env" where
  "time_time w = (clock w (reads w), w\<lparr>reads := Suc (reads w)\<rparr>)"

definition pyautogui :: "os_call \<Rightarrow> env \<Rightarrow> env option" where
  "pyautogui k w =
     (if raises w k then None
      else Some (w\<lparr>cursor := (case k of MoveTo x y \<Rightarrow> (x, y) | _ \<Rightarrow> cursor w),
                   events := events w @ [k]\<rparr>))"

definition pyautogui_position :: "env \<Rightarrow> (int \<times> int) option" where
  "pyautogui_position w = (if raises w Position then None else Some (cursor w))"

section \<open>action_controller.py\<close>

datatype ActionType =
    MOVE_MOUSE
  | LEFT_CLICK
  | RIGHT_CLICK
  | SCROLL
  | DRAG_START
  | DRAG_END
  | MINIMIZE_WINDOW
  | MAXIMIZE_WINDOW
  | CLOSE_WINDOW
  | VOLUME_UP
  | VOLUME_DOWN

record controller =
  screen_width :: int
  screen_height :: int
  action_cooldowns :: "ActionType \<rightharpoonup> real"
  last_action_time :: "ActionType \<rightharpoonup> real"
  is_dragging :: bool
  drag_start_position :: "(int \<times> int) option"
  emergency_stop :: bool
  last_mouse_position :: "(int \<times> int) option"
  mouse_smoothing :: real

text \<open>\<open>ActionController.__init__\<close>; the screen size is what \<open>pyautogui.size()\<close> reports.\<close>

definition ActionController_init :: "int \<Rightarrow> int \<Rightarrow> controller" where
  "ActionController_init width height =
     \<lparr> screen_width = width,
       screen_height = height,
       action_cooldowns = map_of
         [(LEFT_CLICK, 1 / 10), (RIGHT_CLICK, 1 / 10), (SCROLL, 5 / 100),
          (MINIMIZE_WINDOW, 1), (MAXIMIZE_WINDOW, 1), (CLOSE_WINDOW, 1),
          (VOLUME_UP, 1 / 10), (VOLUME_DOWN, 1 / 10)],
       last_action_time = Map.empty,
       is_dragging = False,
       drag_start_position = None,
       emergency_stop = False,
       last_mouse_position = None,
       mouse_smoothing = 3 / 10 \<rparr>"

text \<open>\<open>dict.get(key, 0)\<close>.\<close>

definition get_or_zero :: "('k \<rightharpoonup> real) \<Rightarrow> 'k \<Rightarrow> real" where
  "get_or_zero m k = (case m k of None \<Rightarrow> 0 | Some v \<Rightarrow> v)"

definition can_execute_action :: "ActionType \<Rightarrow> controller \<Rightarrow> env \<Rightarrow> bool \<times> env" where
  "can_execute_action action_type c w =
     (if emergency_stop c then (False, w)
      else
        let (current_time, w1) = time_time w;
            last_time = get_or_zero (last_action_time c) action_type;
            cooldown = get_or_zero (action_cooldowns c) action_type
        in (current_time - last_time > cooldown, w1))"

definition move_mouse :: "real \<Rightarrow> real \<Rightarrow> controller \<Rightarrow> env \<Rightarrow> bool \<times> controller \<times> env" where
  "move_mouse normalized_x normalized_y c w =
     (if emergency_stop c then (False, c, w)
      else
        let target_x = py_int (normalized_x * real_of_int (screen_width c));
            target_y = py_int (normalized_y * real_of_int (screen_height c));
            target_x = max 0 (min target_x (screen_width c - 1));
            target_y = max 0 (min target_y (screen_height c - 1));
            (target_x, target_y) =
              (case last_mouse_position c of
                 None \<Rightarrow> (target_x, target_y)
               | Some (prev_x, prev_y) \<Rightarrow>
                   (py_int (real_of_int prev_x
                            + real_of_int (target_x - prev_x) * (1 - mouse_smoothing c)),
                    py_int (real_of_int prev_y
                            + real_of_int (target_y - prev_y) * (1 - mouse_smoothing c))))
        in case pyautogui (MoveTo target_x target_y) w of
             None \<Rightarrow> (False, c, w)
           | Some w1 \<Rightarrow> (True, c\<lparr>last_mouse_position := Some (target_x, target_y)\<rparr>, w1))"

text \<open>
  The cooldown-gated primitives share one shape: gate, primitive calls, timestamp.
  \<open>run_calls\<close> performs the calls in order and stops at the first one that raises,
  keeping the effects of the earlier ones, as the \<open>try\<close> block does.
\<close>

fun run_calls :: "os_call list \<Rightarrow> env \<Rightarrow> bool \<times> env" where
  "run_calls [] w = (True, w)"
| "run_calls (k # ks) w =
     (case pyautogui k w of None \<Rightarrow> (False, w) | Some w1 \<Rightarrow> run_calls ks w1)"

definition gated_action ::
  "ActionType \<Rightarrow> os_call list \<Rightarrow> controller \<Rightarrow> env \<Rightarrow> bool \<times> controller \<times> env" where
  "gated_action action_type calls c w =
     (let (allowed, w1) = can_execute_action action_type c w
      in if \<not> allowed then (False, c, w1)
         else
           let (done, w2) = run_calls calls w1
           in if \<not> done then (False, c, w2)
              else
                let (now, w3) = time_time w2
                in (True, c\<lparr>last_action_time := (last_action_time c)(action_type \<mapsto> now)\<rparr>, w3))"






definition close_window :: "controller \<Rightarrow> env \<Rightarrow> bool \<times> controller \<times> env" where
  "close_window = gated_action CLOSE_WINDOW [Hotkey ''alt'' ''f4'']"


definition start_drag :: "controller \<Rightarrow> env \<Rightarrow> bool \<times> controller \<times> env" where
  "start_drag c w =
     (if is_dragging c then (False, c, w)
      else
        case pyautogui_position w of
          None \<Rightarrow> (False, c, w)
        | Some current_position \<Rightarrow>
            (case pyautogui MouseDown w of
               None \<Rightarrow> (False, c, w)
             | Some w1 \<Rightarrow>
                 (True, c\<lparr>is_dragging := True,
                          drag_start_position := Some current_position\<rparr>, w1)))"

definition end_drag :: "controller \<Rightarrow> env \<Rightarrow> bool \<times> controller \<times> env" where
  "end_drag c w =
     (if \<not> is_dragging c then (False, c, w)
      else
        case pyautogui MouseUp w of
          None \<Rightarrow> (False, c, w)
        | Some w1 \<Rightarrow>
            (case pyautogui_position w1 of
               None \<Rightarrow> (False, c, w1)
             | Some end_position \<Rightarrow>
                 (True, c\<lparr>is_dragging := False, drag_start_position := None\<rparr>, w1)))"

definition set_mouse_smoothing :: "real \<Rightarrow> controller \<Rightarrow> controller" where
  "set_mouse_smoothing smoothing c = c\<lparr>mouse_smoothing := max 0 (min 1 smoothing)\<rparr>"

definition enable_emergency_stop :: "controller \<Rightarrow> controller" where
  "enable_emergency_stop c = c\<lparr>emergency_stop := True\<rparr>"

definition disable_emergency_stop :: "controller \<Rightarrow> controller" where
  "disable_emergency_stop c = c\<lparr>emergency_stop := False\<rparr>"

definition reset :: "controller \<Rightarrow> env \<Rightarrow> controller \<times> env" where
  "reset c w =
     (let (c1, w1) = (if is_dragging c then snd (end_drag c w) else (c, w))
      in (c1\<lparr>last_action_time := Map.empty,
             last_mouse_position := None,
             emergency_stop := False\<rparr>, w1))"

section \<open>gesture_recognizer.py\<close>

datatype GestureType =
    NONE
  | INDEX_EXTENDED
  | THUMB_INDEX_PINCH
  | THUMB_MIDDLE_PINCH
  | TWO_FINGER_SCROLL
  | THREE_FINGER_CLOSE
  | THREE_FINGER_SPREAD
  | CLOSED_FIST
  | OPEN_PALM
  | THUMB_DOWN
  | THUMB_PINKY_EXTENDED

type_synonym landmark = "real \<times> real \<times> real"

record recognizer =
  pinch_threshold :: real
  finger_extended_threshold :: real
  hold_time :: real
  cooldown_time :: real
  current_gesture :: GestureType
  gesture_start_time :: "real option"
  last_activation_time :: "GestureType \<rightharpoonup> real"
  gesture_history :: "(GestureType \<times> real) list"

definition GestureRecognizer_init :: recognizer where
  "GestureRecognizer_init =
     \<lparr> pinch_threshold = 5 / 100,
       finger_extended_threshold = 6 / 10,
       hold_time = 3 / 10,
       cooldown_time = 5 / 10,
       current_gesture = NONE,
       gesture_start_time = None,
       last_activation_time = Map.empty,
       gesture_history = [] \<rparr>"

definition WRIST :: nat where "WRIST = 0"
definition THUMB_TIP :: nat where "THUMB_TIP = 4"
definition INDEX_TIP :: nat where "INDEX_TIP = 8"
definition MIDDLE_TIP :: nat where "MIDDLE_TIP = 12"
definition RING_TIP :: nat where "RING_TIP = 16"
definition PINKY_TIP :: nat where "PINKY_TIP = 20"
definition INDEX_MCP :: nat where "INDEX_MCP = 5"
definition MIDDLE_MCP :: nat where "MIDDLE_MCP = 9"
definition RING_MCP :: nat where "RING_MCP = 13"
definition PINKY_MCP :: nat where "PINKY_MCP = 17"

text \<open>
  \<open>np.linalg.norm(p[:2] - q[:2])\<close>: the Euclidean distance of two landmarks in the
  x/y plane.
\<close>

definition planar_dist :: "landmark \<Rightarrow> landmark \<Rightarrow> real" where
  "planar_dist p q = sqrt ((fst p - fst q)\<^sup>2 + (fst (snd p) - fst (snd q))\<^sup>2)"

text \<open>
  The detectors (the source's names start with an underscore). Reading a row that the
  array does not have raises \<open>IndexError\<close>, which every detector catches: it then
  returns 0 (\<open>is_finger_extended\<close>: \<open>False\<close>).
\<close>

definition detect_pinch :: "recognizer \<Rightarrow> landmark list \<Rightarrow> nat \<Rightarrow> nat \<Rightarrow> real" where
  "detect_pinch r landmarks finger1_idx finger2_idx =
     (if finger1_idx < length landmarks \<and> finger2_idx < length landmarks then
        let distance = planar_dist (landmarks ! finger1_idx) (landmarks ! finger2_idx)
        in if distance < pinch_threshold r
           then max 0 (min 1 (1 - distance / pinch_threshold r))
           else 0
      else 0)"

definition is_finger_extended :: "recognizer \<Rightarrow> landmark list \<Rightarrow> nat \<Rightarrow> nat \<Rightarrow> bool" where
  "is_finger_extended r landmarks tip_idx mcp_idx =
     (if tip_idx < length landmarks \<and> mcp_idx < length landmarks \<and> WRIST < length landmarks
      then
        let tip = landmarks ! tip_idx;
            mcp = landmarks ! mcp_idx;
            wrist = landmarks ! WRIST;
            tip_to_wrist = planar_dist tip wrist;
            mcp_to_wrist = planar_dist mcp wrist;
            ratio = tip_to_wrist / (mcp_to_wrist + 1 / 1000000)
        in ratio > finger_extended_threshold r
      else False)"

definition fingers_extended :: "recognizer \<Rightarrow> landmark list \<Rightarrow> bool list" where
  "fingers_extended r landmarks =
     [is_finger_extended r landmarks INDEX_TIP INDEX_MCP,
      is_finger_extended r landmarks MIDDLE_TIP MIDDLE_MCP,
      is_finger_extended r landmarks RING_TIP RING_MCP,
      is_finger_extended r landmarks PINKY_TIP PINKY_MCP]"

definition detect_closed_fist :: "recognizer \<Rightarrow> landmark list \<Rightarrow> real" where
  "detect_closed_fist r landmarks =
     (let closed_count = length (filter (\<lambda>extended. \<not> extended) (fingers_extended r landmarks));
          confidence = real closed_count / 4
      in if confidence > 75 / 100 then confidence else 0)"

definition detect_open_palm :: "recognizer \<Rightarrow> landmark list \<Rightarrow> real" where
  "detect_open_palm r landmarks =
     (let extended_count = length (filter (\<lambda>extended. extended) (fingers_extended r landmarks));
          confidence = real extended_count / 4
      in if confidence > 75 / 100 then confidence else 0)"

definition detect_index_extended :: "recognizer \<Rightarrow> landmark list \<Rightarrow> real" where
  "detect_index_extended r landmarks =
     (let index_extended = is_finger_extended r landmarks INDEX_TIP INDEX_MCP;
          middle_extended = is_finger_extended r landmarks MIDDLE_TIP MIDDLE_MCP;
          ring_extended = is_finger_extended r landmarks RING_TIP RING_MCP;
          pinky_extended = is_finger_extended r landmarks PINKY_TIP PINKY_MCP
      in if index_extended \<and> \<not> middle_extended \<and> \<not> ring_extended \<and> \<not> pinky_extended
         then 9 / 10
         else if index_extended then 5 / 10
         else 0)"

definition detect_two_finger_scroll :: "recognizer \<Rightarrow> landmark list \<Rightarrow> real" where
  "detect_two_finger_scroll r landmarks =
     (let index_extended = is_finger_extended r landmarks INDEX_TIP INDEX_MCP;
          middle_extended = is_finger_extended r landmarks MIDDLE_TIP MIDDLE_MCP;
          ring_extended = is_finger_extended r landmarks RING_TIP RING_MCP;
          pinky_extended = is_finger_extended r landmarks PINKY_TIP PINKY_MCP
      in if index_extended \<and> middle_extended \<and> \<not> ring_extended \<and> \<not> pinky_extended
         then 9 / 10
         else 0)"

definition detect_three_finger_close :: "recognizer \<Rightarrow> landmark list \<Rightarrow> real" where
  "detect_three_finger_close r landmarks =
     (if INDEX_TIP < length landmarks \<and> MIDDLE_TIP < length landmarks
         \<and> RING_TIP < length landmarks then
        let dist_index_middle = planar_dist (landmarks ! INDEX_TIP) (landmarks ! MIDDLE_TIP);
            dist_middle_ring = planar_dist (landmarks ! MIDDLE_TIP) (landmarks ! RING_TIP);
            threshold = 8 / 100
        in if dist_index_middle < threshold \<and> dist_middle_ring < threshold
           then max 0 (min 1 (1 - (dist_index_middle + dist_middle_ring) / (2 * threshold)))
           else 0
      else 0)"

definition detect_three_finger_spread :: "recognizer \<Rightarrow> landmark list \<Rightarrow> real" where
  "detect_three_finger_spread r landmarks =
     (let index_extended = is_finger_extended r landmarks INDEX_TIP INDEX_MCP;
          middle_extended = is_finger_extended r landmarks MIDDLE_TIP MIDDLE_MCP;
          ring_extended = is_finger_extended r landmarks RING_TIP RING_MCP
      in if \<not> (index_extended \<and> middle_extended \<and> ring_extended) then 0
         else if INDEX_TIP < length landmarks \<and> MIDDLE_TIP < length landmarks
                 \<and> RING_TIP < length landmarks then
           let dist_index_middle = planar_dist (landmarks ! INDEX_TIP) (landmarks ! MIDDLE_TIP);
               dist_middle_ring = planar_dist (landmarks ! MIDDLE_TIP) (landmarks ! RING_TIP);
               min_spread = 1 / 10
           in if dist_index_middle > min_spread \<and> dist_middle_ring > min_spread
              then 8 / 10
              else 0
         else 0)"

definition detect_thumb_down :: "recognizer \<Rightarrow> landmark list \<Rightarrow> real" where
  "detect_thumb_down r landmarks =
     (if THUMB_TIP < length landmarks \<and> WRIST < length landmarks then
        let thumb_tip = landmarks ! THUMB_TIP;
            wrist = landmarks ! WRIST
        in if fst (snd thumb_tip) > fst (snd wrist)
           then let distance = fst (snd thumb_tip) - fst (snd wrist)
                in min 1 (distance / (3 / 10))
           else 0
      else 0)"

definition detect_thumb_pinky_extended :: "recognizer \<Rightarrow> landmark list \<Rightarrow> real" where
  "detect_thumb_pinky_extended r landmarks =
     (if THUMB_TIP < length landmarks \<and> PINKY_TIP < length landmarks
         \<and> WRIST < length landmarks then
        let thumb_dist = planar_dist (landmarks ! THUMB_TIP) (landmarks ! WRIST);
            pinky_dist = planar_dist (landmarks ! PINKY_TIP) (landmarks ! WRIST);
            index_extended = is_finger_extended r landmarks INDEX_TIP INDEX_MCP;
            middle_extended = is_finger_extended r landmarks MIDDLE_TIP MIDDLE_MCP;
            ring_extended = is_finger_extended r landmarks RING_TIP RING_MCP
        in if thumb_dist > 15 / 100 \<and> pinky_dist > 15 / 100
              \<and> \<not> index_extended \<and> \<not> middle_extended \<and> \<not> ring_extended
           then 85 / 100
           else 0
      else 0)"

subsection \<open>The resolver\<close>

text \<open>
  \<open>gesture_counts\<close> is a dictionary of lists; Python dictionaries iterate in insertion
  order, so it is an association list in order of first occurrence.
\<close>

fun dict_append :: "('k \<times> 'v list) list \<Rightarrow> 'k \<Rightarrow> 'v \<Rightarrow> ('k \<times> 'v list) list" where
  "dict_append [] k v = [(k, [v])]"
| "dict_append ((k', vs) # d) k v =
     (if k' = k then (k', vs @ [v]) # d else (k', vs) # dict_append d k v)"

definition gesture_counts :: "(GestureType \<times> real) list \<Rightarrow> (GestureType \<times> real list) list" where
  "gesture_counts history = foldl (\<lambda>d (gesture, confidence). dict_append d gesture confidence) [] history"

definition best_step :: "GestureType \<times> real \<Rightarrow> GestureType \<times> real list \<Rightarrow> GestureType \<times> real" where
  "best_step best entry =
     (let (best_gesture, best_score) = best;
          (gesture, confidences) = entry;
          avg_confidence = sum_list confidences / real (length confidences);
          score = real (length confidences) * avg_confidence
      in if score > best_score then (gesture, score) else (best_gesture, best_score))"

definition get_smoothed_gesture :: "recognizer \<Rightarrow> GestureType \<times> real" where
  "get_smoothed_gesture r =
     (if gesture_history r = [] then (NONE, 0)
      else
        let counts = gesture_counts (gesture_history r);
            (best_gesture, best_score) = foldl best_step (NONE, 0) counts;
            avg_confidence =
              (case map_of counts best_gesture of
                 Some confidences \<Rightarrow> sum_list confidences / real (length confidences)
               | None \<Rightarrow> 0)
        in (best_gesture, avg_confidence))"

text \<open>
  \<open>max(gestures.items(), key=lambda x: x[1])\<close> keeps the first item of maximal key.
\<close>

fun max_by_confidence :: "GestureType \<times> real \<Rightarrow> (GestureType \<times> real) list \<Rightarrow> GestureType \<times> real" where
  "max_by_confidence best [] = best"
| "max_by_confidence best (x # xs) =
     max_by_confidence (if snd x > snd best then x else best) xs"

text \<open>\<open>deque(maxlen=n).append\<close>: the oldest entries fall out.\<close>

definition deque_append :: "nat \<Rightarrow> 'a list \<Rightarrow> 'a \<Rightarrow> 'a list" where
  "deque_append maxlen xs x = (let ys = xs @ [x] in drop (length ys - maxlen) ys)"

definition recognize_gesture ::
  "landmark list \<Rightarrow> recognizer \<Rightarrow> (GestureType \<times> real) \<times> recognizer" where
  "recognize_gesture landmarks r =
     (if landmarks = [] \<or> length landmarks \<noteq> 21 then ((NONE, 0), r)
      else
        let gestures =
              [(THUMB_INDEX_PINCH, detect_pinch r landmarks THUMB_TIP INDEX_TIP),
               (THUMB_MIDDLE_PINCH, detect_pinch r landmarks THUMB_TIP MIDDLE_TIP),
               (CLOSED_FIST, detect_closed_fist r landmarks),
               (OPEN_PALM, detect_open_palm r landmarks),
               (TWO_FINGER_SCROLL, detect_two_finger_scroll r landmarks),
               (THREE_FINGER_CLOSE, detect_three_finger_close r landmarks),
               (THREE_FINGER_SPREAD, detect_three_finger_spread r landmarks),
               (THUMB_DOWN, detect_thumb_down r landmarks),
               (THUMB_PINKY_EXTENDED, detect_thumb_pinky_extended r landmarks),
               (INDEX_EXTENDED, detect_index_extended r landmarks)];
            (gesture_type, confidence) = max_by_confidence (hd gestures) (tl gestures);
            (gesture_type, confidence) =
              (if confidence < 5 / 10 then (NONE, 0) else (gesture_type, confidence));
            r1 = r\<lparr>gesture_history := deque_append 5 (gesture_history r) (gesture_type, confidence)\<rparr>
        in (get_smoothed_gesture r1, r1))"

definition can_activate_gesture :: "GestureType \<Rightarrow> recognizer \<Rightarrow> env \<Rightarrow> bool \<times> env" where
  "can_activate_gesture gesture r w =
     (if gesture = NONE then (False, w)
      else
        let (current_time, w1) = time_time w;
            last_time = get_or_zero (last_activation_time r) gesture
        in (current_time - last_time > cooldown_time r, w1))"



section \<open>main.py: the dispatcher\<close>

text \<open>
  The part of \<open>GestureControlApp\<close> that the dispatcher reads and writes. The recent-actions
  log keeps the action names; the clock text in front of each entry and the refresh of the
  text widget belong to the user interface.
\<close>

record app =
  gesture_recognizer :: recognizer
  action_controller :: controller
  control_zone_margin :: real
  gesture_count :: nat
  recent_actions :: "string list"

text \<open>
  \<open>map_to_screen_coordinates\<close>; the float division raises \<open>ZeroDivisionError\<close> when the
  margin is one half.
\<close>

definition map_to_screen_coordinates :: "real \<Rightarrow> real \<Rightarrow> app \<Rightarrow> (real \<times> real) option" where
  "map_to_screen_coordinates hand_x hand_y a =
     (if 1 - 2 * control_zone_margin a = 0 then None
      else
        let mapped_x = (hand_x - control_zone_margin a) / (1 - 2 * control_zone_margin a);
            mapped_y = (hand_y - control_zone_margin a) / (1 - 2 * control_zone_margin a);
            mapped_x = max 0 (min 1 mapped_x);
            mapped_y = max 0 (min 1 mapped_y)
        in Some (mapped_x, mapped_y))"




section \<open>Concrete states\<close>

text \<open>
  A fresh environment whose primitives never raise and whose clock reads 1000 seconds, a
  controller for a 1920 by 1080 screen, and the application around them.
\<close>

definition env0 :: env where
  "env0 = \<lparr> clock = (\<lambda>n. 1000), reads = 0, cursor = (0, 0), events = [],
            raises = (\<lambda>k. False) \<rparr>"

definition controller0 :: controller where
  "controller0 = ActionController_init 1920 1080"

definition app0 :: app where
  "app0 = \<lparr> gesture_recognizer = GestureRecognizer_init, action_controller = controller0,
            control_zone_margin = 15 / 100, gesture_count = 0, recent_actions = [] \<rparr>"

definition app_stopped :: app where
  "app_stopped = app0\<lparr>action_controller := enable_emergency_stop controller0\<rparr>"

text \<open>A controller in the middle of a drag, with the emergency stop set.\<close>

definition dragging0 :: controller where
  "dragging0 = controller0\<lparr>is_dragging := True, drag_start_position := Some (10, 20),
      emergency_stop := True, last_mouse_position := Some (10, 20),
      last_action_time := [LEFT_CLICK \<mapsto> 999]\<rparr>"


text \<open>
  Hands laid out on the x axis: \<open>pointing_hand\<close> has the index finger stretched and the other
  fingers curled; \<open>pinch_hand x\<close> has the thumb tip at distance \<open>|x|\<close> from the index tip.
\<close>

definition hand_on_axis :: "real list \<Rightarrow> landmark list" where
  "hand_on_axis xs = map (\<lambda>x. (x, 0, 0)) xs"

definition pointing_hand :: "landmark list" where
  "pointing_hand = hand_on_axis
     [0, 5 / 100, 5 / 100, 5 / 100, 5 / 100,
      10 / 100, 15 / 100, 18 / 100, 20 / 100,
      10 / 100, 5 / 100, 5 / 100, 5 / 100,
      10 / 100, 5 / 100, 5 / 100, 5 / 100,
      10 / 100, 5 / 100, 5 / 100, 5 / 100]"

definition pinch_hand :: "real \<Rightarrow> landmark list" where
  "pinch_hand x = hand_on_axis (replicate 4 0 @ [x] @ replicate 16 0)"

text \<open>
  The resolver's rule in the words of the specification: the entries of the window are
  grouped by class; the score of a class is the number of its entries times the average
  of their stored confidences.
\<close>

definition class_confidences :: "GestureType \<Rightarrow> (GestureType \<times> real) list \<Rightarrow> real list" where
  "class_confidences g history = map snd (filter (\<lambda>entry. fst entry = g) history)"

definition class_average :: "GestureType \<Rightarrow> (GestureType \<times> real) list \<Rightarrow> real" where
  "class_average g history =
     sum_list (class_confidences g history) / real (length (class_confidences g history))"

definition class_score :: "GestureType \<Rightarrow> (GestureType \<times> real) list \<Rightarrow> real" where
  "class_score g history =
     real (length (class_confidences g history)) * class_average g history"

text \<open>
  What \<open>recognize_gesture\<close> stores in the window: the null gesture with confidence 0, or
  a detector's class with a confidence of at least one half.
\<close>

definition valid_history :: "(GestureType \<times> real) list \<Rightarrow> bool" where
  "valid_history history =
     list_all (\<lambda>(g, c). if g = NONE then c = 0 else 1 / 2 \<le> c) history"

definition entry_score :: "real list \<Rightarrow> real" where
  "entry_score cs = real (length cs) * (sum_list cs / real (length cs))"

definition history0 :: "(GestureType \<times> real) list" where
  "history0 = [(INDEX_EXTENDED, 9 / 10), (NONE, 0), (INDEX_EXTENDED, 7 / 10),
               (TWO_FINGER_SCROLL, 9 / 10), (NONE, 0)]"

text \<open>
  Iterating the pointer filter: \<open>move_step x y\<close> is one call of \<open>move_mouse x y\<close> on the
  controller and the environment, its success flag dropped. \<open>pixel_target\<close> is the
  clamped pixel position that \<open>move_mouse\<close> computes before blending, and \<open>smooth_axis\<close>
  is its blend of one coordinate with the previous output.
\<close>

definition move_step :: "real \<Rightarrow> real \<Rightarrow> controller \<times> env \<Rightarrow> controller \<times> env" where
  "move_step x y s = snd (move_mouse x y (fst s) (snd s))"

definition pixel_target :: "real \<Rightarrow> real \<Rightarrow> controller \<Rightarrow> int \<times> int" where
  "pixel_target x y c =
     (max 0 (min (py_int (x * real_of_int (screen_width c))) (screen_width c - 1)),
      max 0 (min (py_int (y * real_of_int (screen_height c))) (screen_height c - 1)))"

definition smooth_axis :: "real \<Rightarrow> int \<Rightarrow> int \<Rightarrow> int" where
  "smooth_axis \<alpha> target prev =
     py_int (real_of_int prev + real_of_int (target - prev) * (1 - \<alpha>))"

text \<open>A controller whose last output is one pixel left of the centre of the screen.\<close>

definition near0 :: controller where
  "near0 = controller0\<lparr>last_mouse_position := Some (959, 540)\<rparr>"


section \<open>Emergency stop\<close>

text \<open>
  C1, as stated, fails: the emergency-stop flag is a field of the action controller, and
  the activation gate of the recognizer never reads it. With the flag set and no earlier
  activation, \<open>can_activate_gesture\<close> answers true for a pinch.
\<close>

theorem gate_ignores_emergency_stop_counterexample:
  "emergency_stop (action_controller app_stopped)
   \<and> fst (can_activate_gesture THUMB_INDEX_PINCH (gesture_recognizer app_stopped) env0)"
  by (simp add: app_stopped_def app0_def controller0_def ActionController_init_def
      enable_emergency_stop_def GestureRecognizer_init_def env0_def can_activate_gesture_def
      time_time_def get_or_zero_def)

text \<open>
  C1, amended: when the emergency-stop flag is set, the controller's own gate
  \<open>can_execute_action\<close> returns false for every action type whatever the cooldown
  state (and reads no clock), and \<open>move_mouse\<close> returns failure and leaves the controller,
  the pointer and the trace of primitive calls as they were. The recognizer's
  \<open>can_activate_gesture\<close> does not depend on the flag: it is true exactly when the class
  is not the null gesture and more than \<open>cooldown_time\<close> has passed since its last
  activation.
\<close>

theorem emergency_stop_blocks_controller:
  assumes "emergency_stop c"
  shows "can_execute_action action_type c w = (False, w)
         \<and> move_mouse x y c w = (False, c, w)
         \<and> fst (can_activate_gesture g r w)
             = (g \<noteq> NONE
                \<and> clock w (reads w) - get_or_zero (last_activation_time r) g > cooldown_time r)"
  using assms
  by (simp add: can_execute_action_def move_mouse_def can_activate_gesture_def time_time_def)

theorem emergency_stop_blocks_controller_witness:
  "emergency_stop (enable_emergency_stop controller0)
   \<and> can_execute_action LEFT_CLICK (enable_emergency_stop controller0) env0 = (False, env0)
   \<and> move_mouse (1 / 2) (1 / 2) (enable_emergency_stop controller0) env0
       = (False, enable_emergency_stop controller0, env0)
   \<and> fst (can_activate_gesture CLOSED_FIST GestureRecognizer_init env0)"
  using emergency_stop_blocks_controller
    [of "enable_emergency_stop controller0" LEFT_CLICK env0 "1 / 2" "1 / 2" CLOSED_FIST
        GestureRecognizer_init]
  by (simp add: enable_emergency_stop_def env0_def GestureRecognizer_init_def get_or_zero_def)

section \<open>Invalid landmark sequences\<close>

text \<open>
  C2: a landmark sequence whose length is not 21, the empty one included, is classified as
  the null gesture with confidence 0; the recognizer's state is untouched and no exception
  path is taken.
\<close>

theorem invalid_length_is_null_gesture:
  assumes "length landmarks \<noteq> 21"
  shows "recognize_gesture landmarks r = ((NONE, 0), r)"
  using assms by (simp add: recognize_gesture_def)

theorem invalid_length_is_null_gesture_witness:
  "recognize_gesture [] GestureRecognizer_init = ((NONE, 0), GestureRecognizer_init)
   \<and> recognize_gesture [(1 / 2, 1 / 2, 0)] GestureRecognizer_init
       = ((NONE, 0), GestureRecognizer_init)"
  using invalid_length_is_null_gesture [of "[]" GestureRecognizer_init]
    invalid_length_is_null_gesture [of "[(1 / 2, 1 / 2, 0)]" GestureRecognizer_init]
  by simp

section \<open>The drag state machine\<close>

lemma end_drag_idle: "\<not> is_dragging c \<Longrightarrow> end_drag c w = (False, c, w)"
  by (simp add: end_drag_def)

lemma start_drag_dragging: "is_dragging c \<Longrightarrow> start_drag c w = (False, c, w)"
  by (simp add: start_drag_def)

lemma start_drag_ok:
  "\<not> is_dragging c \<Longrightarrow> \<not> raises w Position \<Longrightarrow> \<not> raises w MouseDown \<Longrightarrow>
   start_drag c w = (True, c\<lparr>is_dragging := True, drag_start_position := Some (cursor w)\<rparr>,
                     w\<lparr>events := events w @ [MouseDown]\<rparr>)"
  by (simp add: start_drag_def pyautogui_position_def pyautogui_def)

lemma end_drag_ok:
  "is_dragging c \<Longrightarrow> \<not> raises w Position \<Longrightarrow> \<not> raises w MouseUp \<Longrightarrow>
   end_drag c w = (True, c\<lparr>is_dragging := False, drag_start_position := None\<rparr>,
                   w\<lparr>events := events w @ [MouseUp]\<rparr>)"
  by (simp add: end_drag_def pyautogui_position_def pyautogui_def)

lemma start_drag_success_dragging:
  "start_drag c w = (True, c1, w1) \<Longrightarrow> is_dragging c1"
  by (auto simp: start_drag_def split: if_splits option.splits)

text \<open>
  C6: \<open>end_drag\<close> while idle (also right after construction) and \<open>start_drag\<close> while
  dragging return failure and change nothing; a second \<open>start_drag\<close> after a successful
  one fails; and from idle, when the button primitives do not raise, \<open>start_drag\<close> then
  \<open>end_drag\<close> both succeed, issue button-down then button-up, and leave the controller
  idle with no recorded start position. No call raises: every exception of a primitive
  is a failure result.
\<close>

theorem drag_state_machine:
  "(\<not> is_dragging c \<longrightarrow> end_drag c w = (False, c, w))
   \<and> end_drag (ActionController_init width height) w = (False, ActionController_init width height, w)
   \<and> (is_dragging c \<longrightarrow> start_drag c w = (False, c, w))
   \<and> (start_drag c w = (True, c1, w1) \<longrightarrow> start_drag c1 w2 = (False, c1, w2))
   \<and> (\<not> is_dragging c \<and> \<not> raises w Position \<and> \<not> raises w MouseDown \<and> \<not> raises w MouseUp \<longrightarrow>
        (\<exists>c' w' c'' w''. start_drag c w = (True, c', w') \<and> end_drag c' w' = (True, c'', w'')
           \<and> \<not> is_dragging c'' \<and> drag_start_position c'' = None
           \<and> events w'' = events w @ [MouseDown, MouseUp]))"
proof -
  have a: "end_drag (ActionController_init width height) w
           = (False, ActionController_init width height, w)"
    by (rule end_drag_idle) (simp add: ActionController_init_def)
  have b: "start_drag c w = (True, c1, w1) \<longrightarrow> start_drag c1 w2 = (False, c1, w2)"
    using start_drag_success_dragging start_drag_dragging by blast
  have c: "\<not> is_dragging c \<and> \<not> raises w Position \<and> \<not> raises w MouseDown \<and> \<not> raises w MouseUp \<longrightarrow>
        (\<exists>c' w' c'' w''. start_drag c w = (True, c', w') \<and> end_drag c' w' = (True, c'', w'')
           \<and> \<not> is_dragging c'' \<and> drag_start_position c'' = None
           \<and> events w'' = events w @ [MouseDown, MouseUp])"
    by (simp add: start_drag_ok end_drag_ok)
  show ?thesis using a b c end_drag_idle start_drag_dragging by blast
qed

theorem drag_state_machine_witness:
  "end_drag controller0 env0 = (False, controller0, env0)
   \<and> start_drag dragging0 env0 = (False, dragging0, env0)
   \<and> (\<exists>c' w'. start_drag controller0 env0 = (True, c', w')
         \<and> start_drag c' env0 = (False, c', env0))
   \<and> (\<exists>c' w' c'' w''. start_drag controller0 env0 = (True, c', w')
         \<and> end_drag c' w' = (True, c'', w'')
         \<and> \<not> is_dragging c'' \<and> drag_start_position c'' = None
         \<and> events w'' = events env0 @ [MouseDown, MouseUp])"
proof -
  have idle: "\<not> is_dragging controller0"
    by (simp add: controller0_def ActionController_init_def)
  have drag: "is_dragging dragging0" by (simp add: dragging0_def)
  have ok: "\<not> raises env0 Position \<and> \<not> raises env0 MouseDown \<and> \<not> raises env0 MouseUp"
    by (simp add: env0_def)
  obtain c' w' where s: "start_drag controller0 env0 = (True, c', w')"
    using idle ok by (simp add: start_drag_ok)
  show ?thesis
    using idle drag ok s
      drag_state_machine [of controller0 env0 1920 1080 c' w' env0]
      drag_state_machine [of dragging0 env0 1920 1080 dragging0 env0 env0]
    by simp
qed

section \<open>Reset\<close>

lemma reset_fields:
  "emergency_stop (fst (reset c w)) = False
   \<and> last_action_time (fst (reset c w)) = Map.empty
   \<and> last_mouse_position (fst (reset c w)) = None"
  by (simp add: reset_def split_beta Let_def)

lemma reset_drag:
  "is_dragging (fst (reset c w)) = (if is_dragging c then is_dragging (fst (snd (end_drag c w))) else False)
   \<and> snd (reset c w) = (if is_dragging c then snd (snd (end_drag c w)) else w)"
  by (simp add: reset_def split_beta Let_def)

text \<open>
  C10: after every \<open>reset\<close> the emergency-stop flag is false, also when it was enabled
  just before; every cooldown timestamp and the last mouse position are cleared; and a
  drag in progress is ended through \<open>end_drag\<close>, which releases the button and leaves the
  controller idle whenever the button primitives do not raise.
\<close>

theorem reset_clears_emergency_stop:
  "emergency_stop (fst (reset c w)) = False
   \<and> emergency_stop (fst (reset (enable_emergency_stop c) w)) = False
   \<and> last_action_time (fst (reset c w)) = Map.empty
   \<and> last_mouse_position (fst (reset c w)) = None
   \<and> is_dragging (fst (reset c w)) = (is_dragging c \<and> is_dragging (fst (snd (end_drag c w))))
   \<and> snd (reset c w) = (if is_dragging c then snd (snd (end_drag c w)) else w)
   \<and> (is_dragging c \<and> \<not> raises w MouseUp \<and> \<not> raises w Position \<longrightarrow>
        \<not> is_dragging (fst (reset c w)) \<and> drag_start_position (fst (reset c w)) = None
        \<and> events (snd (reset c w)) = events w @ [MouseUp])"
proof -
  have "is_dragging c \<and> \<not> raises w MouseUp \<and> \<not> raises w Position \<longrightarrow>
        \<not> is_dragging (fst (reset c w)) \<and> drag_start_position (fst (reset c w)) = None
        \<and> events (snd (reset c w)) = events w @ [MouseUp]"
    by (simp add: reset_def end_drag_ok)
  then show ?thesis
    using reset_fields [of c w] reset_fields [of "enable_emergency_stop c" w] reset_drag [of c w]
    by auto
qed

theorem reset_clears_emergency_stop_witness:
  "is_dragging dragging0 \<and> emergency_stop dragging0
   \<and> \<not> raises env0 MouseUp \<and> \<not> raises env0 Position
   \<and> emergency_stop (fst (reset dragging0 env0)) = False
   \<and> last_action_time (fst (reset dragging0 env0)) = Map.empty
   \<and> last_mouse_position (fst (reset dragging0 env0)) = None
   \<and> \<not> is_dragging (fst (reset dragging0 env0))
   \<and> drag_start_position (fst (reset dragging0 env0)) = None
   \<and> events (snd (reset dragging0 env0)) = events env0 @ [MouseUp]"
proof -
  have h: "is_dragging dragging0 \<and> emergency_stop dragging0" by (simp add: dragging0_def)
  have ok: "\<not> raises env0 MouseUp \<and> \<not> raises env0 Position" by (simp add: env0_def)
  show ?thesis using h ok reset_clears_emergency_stop [of dragging0 env0] by blast
qed

section \<open>Scroll dispatch\<close>








section \<open>Control-zone remap\<close>

text \<open>
  C9: for every margin \<open>m\<close> with \<open>0 \<le> m < 0.5\<close> the remap computes
  \<open>(h - m) / (1 - 2 m)\<close> clamped to \<open>[0, 1]\<close> in each coordinate; an input equal to \<open>m\<close>
  maps to 0, an input equal to \<open>1 - m\<close> maps to 1, inputs below \<open>m\<close> map to 0 and inputs
  above \<open>1 - m\<close> map to 1, so every output lies in \<open>[0, 1]\<close>.
\<close>

theorem control_zone_remap:
  assumes "0 \<le> control_zone_margin a" and "control_zone_margin a < 1 / 2"
  shows "map_to_screen_coordinates hand_x hand_y a
           = Some (max 0 (min 1 ((hand_x - control_zone_margin a) / (1 - 2 * control_zone_margin a))),
                   max 0 (min 1 ((hand_y - control_zone_margin a) / (1 - 2 * control_zone_margin a))))
   \<and> map_to_screen_coordinates (control_zone_margin a) (control_zone_margin a) a = Some (0, 0)
   \<and> map_to_screen_coordinates (1 - control_zone_margin a) (1 - control_zone_margin a) a
       = Some (1, 1)
   \<and> (\<exists>x y. map_to_screen_coordinates hand_x hand_y a = Some (x, y)
         \<and> 0 \<le> x \<and> x \<le> 1 \<and> 0 \<le> y \<and> y \<le> 1
         \<and> (hand_x < control_zone_margin a \<longrightarrow> x = 0)
         \<and> (hand_x > 1 - control_zone_margin a \<longrightarrow> x = 1)
         \<and> (hand_y < control_zone_margin a \<longrightarrow> y = 0)
         \<and> (hand_y > 1 - control_zone_margin a \<longrightarrow> y = 1))"
proof -
  let ?m = "control_zone_margin a"
  have pos: "0 < 1 - 2 * ?m" using assms by simp
  have lo: "max 0 (min 1 ((h - ?m) / (1 - 2 * ?m))) = 0" if "h < ?m" for h
  proof -
    have "(h - ?m) / (1 - 2 * ?m) < 0" using that pos by (simp add: divide_neg_pos)
    then show ?thesis by simp
  qed
  have hi: "max 0 (min 1 ((h - ?m) / (1 - 2 * ?m))) = 1" if "h \<ge> 1 - ?m" for h
  proof -
    have "1 \<le> (h - ?m) / (1 - 2 * ?m)" using that pos by (simp add: le_divide_eq)
    then show ?thesis by simp
  qed
  have eq: "map_to_screen_coordinates hand_x hand_y a
           = Some (max 0 (min 1 ((hand_x - ?m) / (1 - 2 * ?m))),
                   max 0 (min 1 ((hand_y - ?m) / (1 - 2 * ?m))))" for hand_x hand_y
    using pos by (simp add: map_to_screen_coordinates_def)
  have c2: "map_to_screen_coordinates ?m ?m a = Some (0, 0)" by (simp add: eq)
  have c3: "map_to_screen_coordinates (1 - ?m) (1 - ?m) a = Some (1, 1)"
    using hi [of "1 - ?m"] by (simp add: eq)
  show ?thesis using eq [of hand_x hand_y] c2 c3 lo [of hand_x] lo [of hand_y]
      hi [of hand_x] hi [of hand_y] by auto
qed

theorem control_zone_remap_witness:
  "map_to_screen_coordinates (15 / 100) (85 / 100) app0 = Some (0, 1)
   \<and> map_to_screen_coordinates (1 / 2) (1 / 10) app0 = Some (1 / 2, 0)
   \<and> map_to_screen_coordinates (9 / 10) (1 / 2) app0 = Some (1, 1 / 2)"
proof -
  have m: "control_zone_margin app0 = 15 / 100" by (simp add: app0_def)
  have h: "0 \<le> control_zone_margin app0" "control_zone_margin app0 < 1 / 2"
    by (simp_all add: m)
  show ?thesis
    using control_zone_remap [OF h, of "15 / 100" "85 / 100"]
      control_zone_remap [OF h, of "1 / 2" "1 / 10"]
      control_zone_remap [OF h, of "9 / 10" "1 / 2"]
    by (simp add: m)
qed

section \<open>Pinch detector\<close>

lemma planar_dist_axis: "planar_dist (x, 0, z) (x', 0, z') = \<bar>x - x'\<bar>"
  by (simp add: planar_dist_def)

lemma planar_dist_nonneg: "0 \<le> planar_dist p q"
  by (simp add: planar_dist_def)

lemma detect_pinch_far:
  assumes "i < length lm" "j < length lm" "pinch_threshold r \<le> planar_dist (lm ! i) (lm ! j)"
  shows "detect_pinch r lm i j = 0"
  using assms by (simp add: detect_pinch_def)

lemma detect_pinch_near:
  assumes "i < length lm" "j < length lm" "planar_dist (lm ! i) (lm ! j) < pinch_threshold r"
  shows "detect_pinch r lm i j = 1 - planar_dist (lm ! i) (lm ! j) / pinch_threshold r"
proof -
  let ?d = "planar_dist (lm ! i) (lm ! j)"
  have d0: "0 \<le> ?d" by (rule planar_dist_nonneg)
  then have t: "0 < pinch_threshold r" using assms(3) by linarith
  have q0: "0 \<le> ?d / pinch_threshold r" using d0 t by simp
  have q1: "?d / pinch_threshold r < 1" using assms(3) t by simp
  show ?thesis using assms q0 q1 by (simp add: detect_pinch_def Let_def)
qed

text \<open>
  C5: for two fingertips at planar distance \<open>d\<close>, the pinch detector returns 0 when
  \<open>d \<ge> pinch_threshold\<close> and \<open>1 - d / pinch_threshold\<close> when \<open>d < pinch_threshold\<close>; the
  value is strictly decreasing in \<open>d\<close> below the threshold; and coinciding fingertips
  give exactly 1 (for a positive threshold, as configured).
\<close>

theorem pinch_confidence:
  assumes "i < length lm" "j < length lm" "i' < length lm'" "j' < length lm'"
  shows "(pinch_threshold r \<le> planar_dist (lm ! i) (lm ! j) \<longrightarrow> detect_pinch r lm i j = 0)
   \<and> (planar_dist (lm ! i) (lm ! j) < pinch_threshold r \<longrightarrow>
        detect_pinch r lm i j = 1 - planar_dist (lm ! i) (lm ! j) / pinch_threshold r)
   \<and> (planar_dist (lm ! i) (lm ! j) < planar_dist (lm' ! i') (lm' ! j')
        \<and> planar_dist (lm' ! i') (lm' ! j') < pinch_threshold r \<longrightarrow>
        detect_pinch r lm' i' j' < detect_pinch r lm i j)
   \<and> (planar_dist (lm ! i) (lm ! j) = 0 \<and> 0 < pinch_threshold r \<longrightarrow> detect_pinch r lm i j = 1)"
proof -
  let ?d = "planar_dist (lm ! i) (lm ! j)" and ?d' = "planar_dist (lm' ! i') (lm' ! j')"
  have mono: "detect_pinch r lm' i' j' < detect_pinch r lm i j"
    if "?d < ?d'" "?d' < pinch_threshold r"
  proof -
    have t: "0 < pinch_threshold r" using that planar_dist_nonneg [of "lm ! i" "lm ! j"] by linarith
    have "?d / pinch_threshold r < ?d' / pinch_threshold r"
      using that t by (simp add: divide_strict_right_mono)
    moreover have "detect_pinch r lm i j = 1 - ?d / pinch_threshold r"
      using assms that by (intro detect_pinch_near) simp_all
    moreover have "detect_pinch r lm' i' j' = 1 - ?d' / pinch_threshold r"
      using assms that by (intro detect_pinch_near) simp_all
    ultimately show ?thesis by simp
  qed
  have zero: "detect_pinch r lm i j = 1" if "?d = 0" "0 < pinch_threshold r"
    using detect_pinch_near [OF assms(1,2)] that by simp
  show ?thesis
    using detect_pinch_far [OF assms(1,2)] detect_pinch_near [OF assms(1,2)] mono zero by blast
qed

lemma pinch_hand_facts:
  "length (pinch_hand x) = 21" "pinch_hand x ! THUMB_TIP = (x, 0, 0)"
  "pinch_hand x ! INDEX_TIP = (0, 0, 0)"
  by (simp_all add: pinch_hand_def hand_on_axis_def THUMB_TIP_def INDEX_TIP_def nth_append)

theorem pinch_confidence_witness:
  "detect_pinch GestureRecognizer_init (pinch_hand (1 / 10)) THUMB_TIP INDEX_TIP = 0
   \<and> detect_pinch GestureRecognizer_init (pinch_hand (3 / 100)) THUMB_TIP INDEX_TIP = 2 / 5
   \<and> detect_pinch GestureRecognizer_init (pinch_hand (4 / 100)) THUMB_TIP INDEX_TIP
       < detect_pinch GestureRecognizer_init (pinch_hand (3 / 100)) THUMB_TIP INDEX_TIP
   \<and> detect_pinch GestureRecognizer_init (pinch_hand 0) THUMB_TIP INDEX_TIP = 1"
proof -
  have len: "THUMB_TIP < length (pinch_hand x)" "INDEX_TIP < length (pinch_hand x)" for x
    by (simp_all add: pinch_hand_facts THUMB_TIP_def INDEX_TIP_def)
  have d: "planar_dist (pinch_hand x ! THUMB_TIP) (pinch_hand x ! INDEX_TIP) = \<bar>x\<bar>" for x
    by (simp add: pinch_hand_facts planar_dist_axis)
  have t: "pinch_threshold GestureRecognizer_init = 5 / 100"
    by (simp add: GestureRecognizer_init_def)
  show ?thesis
    using pinch_confidence [OF len [of "1 / 10"] len [of "1 / 10"], of GestureRecognizer_init]
      pinch_confidence [OF len [of "3 / 100"] len [of "4 / 100"], of GestureRecognizer_init]
      pinch_confidence [OF len [of 0] len [of 0], of GestureRecognizer_init]
    by (simp add: d t)
qed

section \<open>Closed fist and open palm\<close>

lemma fist_palm_cases:
  "detect_closed_fist r lm
     = (if length (filter (\<lambda>e. e) (fingers_extended r lm)) = 0 then 1 else 0)
   \<and> detect_open_palm r lm
     = (if length (filter (\<lambda>e. e) (fingers_extended r lm)) = 4 then 1 else 0)"
  by (simp add: detect_closed_fist_def detect_open_palm_def fingers_extended_def Let_def)

text \<open>
  C7: for every landmark sequence the closed-fist and open-palm detectors are never both
  positive, and both return 0 when exactly one to three of the four non-thumb fingers are
  extended; the fist is positive exactly when none is extended, the palm exactly when all
  four are.
\<close>

theorem fist_and_palm_exclusive:
  "\<not> (detect_closed_fist r lm > 0 \<and> detect_open_palm r lm > 0)
   \<and> (1 \<le> length (filter (\<lambda>e. e) (fingers_extended r lm))
        \<and> length (filter (\<lambda>e. e) (fingers_extended r lm)) \<le> 3
      \<longrightarrow> detect_closed_fist r lm = 0 \<and> detect_open_palm r lm = 0)
   \<and> (detect_closed_fist r lm > 0 \<longleftrightarrow> length (filter (\<lambda>e. e) (fingers_extended r lm)) = 0)
   \<and> (detect_open_palm r lm > 0 \<longleftrightarrow> length (filter (\<lambda>e. e) (fingers_extended r lm)) = 4)"
  using fist_palm_cases [of r lm] by auto

lemma pointing_hand_nth:
  "length pointing_hand = 21"
  "pointing_hand ! WRIST = (0, 0, 0)"
  "pointing_hand ! INDEX_TIP = (20 / 100, 0, 0)" "pointing_hand ! INDEX_MCP = (10 / 100, 0, 0)"
  "pointing_hand ! MIDDLE_TIP = (5 / 100, 0, 0)" "pointing_hand ! MIDDLE_MCP = (10 / 100, 0, 0)"
  "pointing_hand ! RING_TIP = (5 / 100, 0, 0)" "pointing_hand ! RING_MCP = (10 / 100, 0, 0)"
  "pointing_hand ! PINKY_TIP = (5 / 100, 0, 0)" "pointing_hand ! PINKY_MCP = (10 / 100, 0, 0)"
  "pointing_hand ! THUMB_TIP = (5 / 100, 0, 0)"
  by (simp_all add: pointing_hand_def hand_on_axis_def WRIST_def INDEX_TIP_def INDEX_MCP_def
      MIDDLE_TIP_def MIDDLE_MCP_def RING_TIP_def RING_MCP_def PINKY_TIP_def PINKY_MCP_def
      THUMB_TIP_def)

lemma pointing_hand_fingers:
  "fingers_extended GestureRecognizer_init pointing_hand = [True, False, False, False]"
proof -
  have idx: "INDEX_TIP < 21" "INDEX_MCP < 21" "MIDDLE_TIP < 21" "MIDDLE_MCP < 21"
    "RING_TIP < 21" "RING_MCP < 21" "PINKY_TIP < 21" "PINKY_MCP < 21" "WRIST < 21"
    by (simp_all add: WRIST_def INDEX_TIP_def INDEX_MCP_def
      MIDDLE_TIP_def MIDDLE_MCP_def RING_TIP_def RING_MCP_def PINKY_TIP_def PINKY_MCP_def)
  show ?thesis
    by (simp add: fingers_extended_def is_finger_extended_def pointing_hand_nth idx
        planar_dist_axis GestureRecognizer_init_def Let_def)
qed

theorem fist_and_palm_exclusive_witness:
  "length (filter (\<lambda>e. e) (fingers_extended GestureRecognizer_init pointing_hand)) = 1
   \<and> detect_closed_fist GestureRecognizer_init pointing_hand = 0
   \<and> detect_open_palm GestureRecognizer_init pointing_hand = 0"
  using fist_and_palm_exclusive [of GestureRecognizer_init pointing_hand]
  by (simp add: pointing_hand_fingers)

section \<open>The resolver's stabilized output\<close>

lemma map_of_dict_append:
  "map_of (dict_append d k v)
     = (map_of d)(k \<mapsto> (case map_of d k of None \<Rightarrow> [v] | Some vs \<Rightarrow> vs @ [v]))"
  by (induction d) (auto simp: fun_upd_twist)

lemma keys_dict_append: "fst ` set (dict_append d k v) = insert k (fst ` set d)"
proof -
  have "dom (map_of (dict_append d k v)) = insert k (dom (map_of d))"
    by (simp add: map_of_dict_append)
  then show ?thesis by (simp add: dom_map_of_conv_image_fst)
qed

lemma distinct_dict_append:
  "distinct (map fst d) \<Longrightarrow> distinct (map fst (dict_append d k v))"
  by (induction d) (auto simp: keys_dict_append)

lemma class_confidences_Cons:
  "class_confidences g ((g0, c0) # h)
     = (if g0 = g then c0 # class_confidences g h else class_confidences g h)"
  by (simp add: class_confidences_def)

lemma foldl_dict_append:
  assumes "distinct (map fst d)"
  shows "distinct (map fst (foldl (\<lambda>d (gesture, confidence). dict_append d gesture confidence) d h))
   \<and> (\<forall>g. map_of (foldl (\<lambda>d (gesture, confidence). dict_append d gesture confidence) d h) g
        = (case map_of d g of
             None \<Rightarrow> (if class_confidences g h = [] then None else Some (class_confidences g h))
           | Some vs \<Rightarrow> Some (vs @ class_confidences g h)))"
  using assms
proof (induction h arbitrary: d)
  case Nil
  then show ?case by (simp add: class_confidences_def split: option.splits)
next
  case (Cons e h)
  obtain g0 c0 where e: "e = (g0, c0)" by (cases e)
  have dd: "distinct (map fst (dict_append d g0 c0))"
    using Cons.prems by (rule distinct_dict_append)
  show ?case
    using Cons.IH [OF dd]
    by (auto simp: e map_of_dict_append class_confidences_Cons split: option.splits)
qed

lemma gesture_counts_lookup:
  "map_of (gesture_counts h) g
     = (if class_confidences g h = [] then None else Some (class_confidences g h))"
  using foldl_dict_append [of "[]" h] by (simp add: gesture_counts_def)

lemma gesture_counts_distinct: "distinct (map fst (gesture_counts h))"
  using foldl_dict_append [of "[]" h] by (simp add: gesture_counts_def)

lemma class_confidences_empty: "class_confidences g h = [] \<longleftrightarrow> g \<notin> fst ` set h"
  by (auto simp: class_confidences_def filter_empty_conv)

lemma gesture_counts_entry:
  "(g, cs) \<in> set (gesture_counts h) \<longleftrightarrow> g \<in> fst ` set h \<and> cs = class_confidences g h"
proof -
  have "(g, cs) \<in> set (gesture_counts h) \<longleftrightarrow> map_of (gesture_counts h) g = Some cs"
    using gesture_counts_distinct [of h] by simp
  then show ?thesis
    by (auto simp: gesture_counts_lookup class_confidences_empty)
qed

lemma best_step_eq:
  "best_step (bg, bs) (g, cs) = (if entry_score cs > bs then (g, entry_score cs) else (bg, bs))"
  by (simp add: best_step_def entry_score_def Let_def)

lemma best_loop:
  assumes "foldl best_step (bg, bs) counts = (g', s')"
  shows "(\<forall>(g, cs) \<in> set counts. entry_score cs \<le> s') \<and> bs \<le> s'
         \<and> ((g', s') = (bg, bs) \<or> (\<exists>cs. (g', cs) \<in> set counts \<and> s' = entry_score cs))"
  using assms
proof (induction counts arbitrary: bg bs)
  case Nil
  then show ?case by simp
next
  case (Cons e counts)
  obtain g cs where e: "e = (g, cs)" by (cases e)
  show ?case
  proof (cases "entry_score cs > bs")
    case True
    then have "foldl best_step (g, entry_score cs) counts = (g', s')"
      using Cons.prems by (simp add: e best_step_eq)
    from Cons.IH [OF this] True show ?thesis by (auto simp: e)
  next
    case False
    then have "foldl best_step (bg, bs) counts = (g', s')"
      using Cons.prems by (simp add: e best_step_eq)
    from Cons.IH [OF this] False show ?thesis by (auto simp: e)
  qed
qed

lemma class_score_entry: "class_score g h = entry_score (class_confidences g h)"
  by (simp add: class_score_def class_average_def entry_score_def)

lemma entry_score_sum: "cs \<noteq> [] \<Longrightarrow> entry_score cs = sum_list cs"
  by (simp add: entry_score_def)

lemma valid_class_positive:
  assumes "valid_history h" "g \<in> fst ` set h" "g \<noteq> NONE"
  shows "0 < class_score g h"
proof -
  let ?cs = "class_confidences g h"
  have ne: "?cs \<noteq> []" using assms(2) by (simp add: class_confidences_empty)
  have all: "1 / 2 \<le> c" if "c \<in> set ?cs" for c
    using assms(1,3) that by (auto simp: valid_history_def class_confidences_def list_all_iff)
  obtain c cs' where cs: "?cs = c # cs'" using ne by (cases ?cs) auto
  have "0 \<le> sum_list cs'"
    by (rule sum_list_nonneg) (use all cs in force)
  moreover have "1 / 2 \<le> c" using all cs by simp
  ultimately have "0 < sum_list ?cs" by (simp add: cs)
  then show ?thesis using ne by (simp add: class_score_entry entry_score_sum)
qed

lemma sum_list_all_zero: "(\<And>c. c \<in> set cs \<Longrightarrow> c = (0::real)) \<Longrightarrow> sum_list cs = 0"
  by (induction cs) simp_all

lemma valid_class_none:
  assumes "valid_history h"
  shows "class_score NONE h = 0"
proof -
  have "c = 0" if "c \<in> set (class_confidences NONE h)" for c
    using assms that by (auto simp: valid_history_def class_confidences_def list_all_iff)
  then have "sum_list (class_confidences NONE h) = 0"
    by (rule sum_list_all_zero)
  then show ?thesis by (simp add: class_score_def class_average_def)
qed

text \<open>
  C8: for every non-empty window that the resolver can hold, the stabilized output is a
  class present in the window whose score (count times average stored confidence) is
  maximal among the classes present, and the output confidence is the average of that
  class's stored confidences. Which of several classes of equal maximal score is chosen
  is not stated.
\<close>

theorem smoothed_gesture_maximal:
  assumes "gesture_history r \<noteq> []" and "valid_history (gesture_history r)"
  shows "fst (get_smoothed_gesture r) \<in> fst ` set (gesture_history r)
   \<and> (\<forall>g \<in> fst ` set (gesture_history r).
        class_score g (gesture_history r)
          \<le> class_score (fst (get_smoothed_gesture r)) (gesture_history r))
   \<and> snd (get_smoothed_gesture r)
       = class_average (fst (get_smoothed_gesture r)) (gesture_history r)"
proof -
  let ?h = "gesture_history r"
  obtain g' s' where loop: "foldl best_step (NONE, 0) (gesture_counts ?h) = (g', s')"
    by (cases "foldl best_step (NONE, 0) (gesture_counts ?h)")
  have out: "get_smoothed_gesture r
     = (g', case map_of (gesture_counts ?h) g' of
              Some confidences \<Rightarrow> sum_list confidences / real (length confidences)
            | None \<Rightarrow> 0)"
    using assms(1) loop by (simp add: get_smoothed_gesture_def Let_def)
  note L = best_loop [OF loop]
  have le: "class_score g ?h \<le> s'" if "g \<in> fst ` set ?h" for g
  proof -
    have "(g, class_confidences g ?h) \<in> set (gesture_counts ?h)"
      using that by (simp add: gesture_counts_entry)
    then show ?thesis using L by (auto simp: class_score_entry)
  qed
  have present: "g' \<in> fst ` set ?h \<and> s' = class_score g' ?h"
  proof (cases "(g', s') = (NONE, 0)")
    case True
    have "g = NONE" if "g \<in> fst ` set ?h" for g
      using le [OF that] valid_class_positive [OF assms(2) that] True by force
    moreover obtain e where "e \<in> set ?h" using assms(1) by (cases ?h) auto
    ultimately have "NONE \<in> fst ` set ?h" by force
    then show ?thesis using True valid_class_none [OF assms(2)] by simp
  next
    case False
    then obtain cs where "(g', cs) \<in> set (gesture_counts ?h)" "s' = entry_score cs"
      using L by auto
    then show ?thesis by (simp add: gesture_counts_entry class_score_entry)
  qed
  have conf: "snd (get_smoothed_gesture r) = class_average g' ?h"
    using present
    by (simp add: out gesture_counts_lookup class_confidences_empty class_average_def)
  show ?thesis using present le conf by (simp add: out)
qed

text \<open>
  The hypothesis on the window is an invariant of the recognizer: it holds initially and
  every \<open>recognize_gesture\<close> keeps it; after a call on 21 landmarks the window is not
  empty.
\<close>

lemma init_valid_history: "valid_history (gesture_history GestureRecognizer_init)"
  by (simp add: valid_history_def GestureRecognizer_init_def)

lemma max_by_confidence_member:
  "max_by_confidence best xs \<in> set (best # xs)"
  by (induction xs arbitrary: best) auto

lemma valid_history_deque_append:
  assumes "valid_history h" and "case e of (g, c) \<Rightarrow> if g = NONE then c = 0 else 1 / 2 \<le> c"
  shows "valid_history (deque_append n h e)"
proof -
  have "set (deque_append n h e) \<subseteq> set (h @ [e])"
    unfolding deque_append_def Let_def by (rule set_drop_subset)
  moreover have "\<forall>x \<in> set (h @ [e]). case x of (g, c) \<Rightarrow> if g = NONE then c = 0 else 1 / 2 \<le> c"
    using assms unfolding valid_history_def list_all_iff by simp
  ultimately show ?thesis
    unfolding valid_history_def list_all_iff by blast
qed

lemma recognize_gesture_valid_history:
  assumes "valid_history (gesture_history r)"
  shows "valid_history (gesture_history (snd (recognize_gesture landmarks r)))"
proof (cases "landmarks = [] \<or> length landmarks \<noteq> 21")
  case True
  then show ?thesis using assms by (simp add: recognize_gesture_def)
next
  case False
  let ?gestures =
    "[(THUMB_INDEX_PINCH, detect_pinch r landmarks THUMB_TIP INDEX_TIP),
      (THUMB_MIDDLE_PINCH, detect_pinch r landmarks THUMB_TIP MIDDLE_TIP),
      (CLOSED_FIST, detect_closed_fist r landmarks),
      (OPEN_PALM, detect_open_palm r landmarks),
      (TWO_FINGER_SCROLL, detect_two_finger_scroll r landmarks),
      (THREE_FINGER_CLOSE, detect_three_finger_close r landmarks),
      (THREE_FINGER_SPREAD, detect_three_finger_spread r landmarks),
      (THUMB_DOWN, detect_thumb_down r landmarks),
      (THUMB_PINKY_EXTENDED, detect_thumb_pinky_extended r landmarks),
      (INDEX_EXTENDED, detect_index_extended r landmarks)]"
  obtain g c where best: "max_by_confidence (hd ?gestures) (tl ?gestures) = (g, c)"
    by (cases "max_by_confidence (hd ?gestures) (tl ?gestures)")
  have "(g, c) \<in> set (hd ?gestures # tl ?gestures)"
    using max_by_confidence_member [of "hd ?gestures" "tl ?gestures"] best by simp
  then have g: "g \<noteq> NONE" by auto
  let ?e = "if c < 5 / 10 then (NONE, 0) else (g, c)"
  have e: "case ?e of (g, c) \<Rightarrow> if g = NONE then c = 0 else 1 / 2 \<le> c"
    using g by simp
  have "gesture_history (snd (recognize_gesture landmarks r))
          = deque_append 5 (gesture_history r) ?e"
    using False best by (simp add: recognize_gesture_def Let_def)
  then show ?thesis using valid_history_deque_append [OF assms e] by simp
qed

lemma recognize_gesture_history_nonempty:
  assumes "length landmarks = 21"
  shows "gesture_history (snd (recognize_gesture landmarks r)) \<noteq> []"
  using assms by (auto simp: recognize_gesture_def Let_def deque_append_def split_beta)

theorem smoothed_gesture_maximal_witness:
  "history0 \<noteq> [] \<and> valid_history history0
   \<and> get_smoothed_gesture (GestureRecognizer_init\<lparr>gesture_history := history0\<rparr>)
       = (INDEX_EXTENDED, 8 / 10)
   \<and> class_score NONE history0 \<le> class_score INDEX_EXTENDED history0
   \<and> class_score TWO_FINGER_SCROLL history0 \<le> class_score INDEX_EXTENDED history0
   \<and> class_average INDEX_EXTENDED history0 = 8 / 10"
proof -
  let ?r = "GestureRecognizer_init\<lparr>gesture_history := history0\<rparr>"
  have ne: "gesture_history ?r \<noteq> []" by (simp add: history0_def)
  have v: "valid_history (gesture_history ?r)" by (simp add: valid_history_def history0_def)
  have out: "get_smoothed_gesture ?r = (INDEX_EXTENDED, 8 / 10)"
    by (simp add: get_smoothed_gesture_def gesture_counts_def history0_def best_step_def Let_def)
  have members: "NONE \<in> fst ` set (gesture_history ?r)"
    "TWO_FINGER_SCROLL \<in> fst ` set (gesture_history ?r)"
    by (simp_all add: history0_def)
  show ?thesis
    using smoothed_gesture_maximal [OF ne v] ne v out members by auto
qed

section \<open>Pointer filter\<close>

lemma smooth_axis_between:
  assumes "0 \<le> \<alpha>" "\<alpha> < 1"
  shows "(prev \<le> t \<longrightarrow> prev \<le> smooth_axis \<alpha> t prev \<and> smooth_axis \<alpha> t prev \<le> t)
       \<and> (t \<le> prev \<longrightarrow> t \<le> smooth_axis \<alpha> t prev \<and> smooth_axis \<alpha> t prev \<le> prev)"
proof -
  let ?v = "real_of_int prev + real_of_int (t - prev) * (1 - \<alpha>)"
  have up: "real_of_int prev \<le> ?v \<and> ?v \<le> real_of_int t" if "prev \<le> t"
  proof -
    have "0 \<le> real_of_int (t - prev) * (1 - \<alpha>)" using that assms by simp
    moreover have "real_of_int (t - prev) * (1 - \<alpha>) \<le> real_of_int (t - prev)"
      using that assms by (simp add: mult_left_le)
    ultimately show ?thesis by simp
  qed
  have down: "real_of_int t \<le> ?v \<and> ?v \<le> real_of_int prev" if "t \<le> prev"
  proof -
    have "real_of_int (prev - t) * (1 - \<alpha>) \<le> real_of_int (prev - t)"
      using that assms by (simp add: mult_left_le)
    moreover have "0 \<le> real_of_int (prev - t) * (1 - \<alpha>)" using that assms by simp
    ultimately show ?thesis by (simp add: algebra_simps)
  qed
  have fl: "a \<le> \<lfloor>?v\<rfloor> \<and> \<lfloor>?v\<rfloor> \<le> b \<and> a \<le> \<lceil>?v\<rceil> \<and> \<lceil>?v\<rceil> \<le> b"
    if "real_of_int a \<le> ?v" "?v \<le> real_of_int b" for a b
    using that by (simp add: le_floor_iff ceiling_le_iff) linarith
  show ?thesis
    using up down fl [of prev t] fl [of t prev]
    by (auto simp: smooth_axis_def py_int_def)
qed

lemma smooth_axis_fixed_bound:
  assumes "0 \<le> \<alpha>" "\<alpha> < 1" "smooth_axis \<alpha> t p = p"
  shows "real_of_int \<bar>t - p\<bar> * (1 - \<alpha>) < 1"
proof -
  let ?d = "real_of_int (t - p) * (1 - \<alpha>)"
  let ?v = "real_of_int p + ?d"
  have "\<bar>?d\<bar> < 1"
  proof (cases "0 \<le> ?v")
    case True
    then have "\<lfloor>?v\<rfloor> = p" using assms(3) by (simp add: smooth_axis_def py_int_def)
    then have "0 \<le> ?d \<and> ?d < 1" by linarith
    then show ?thesis by simp
  next
    case False
    then have "\<lceil>?v\<rceil> = p" using assms(3) by (simp add: smooth_axis_def py_int_def)
    then have "- 1 < ?d \<and> ?d \<le> 0" by linarith
    then show ?thesis by simp
  qed
  moreover have "\<bar>?d\<bar> = real_of_int \<bar>t - p\<bar> * (1 - \<alpha>)"
    using assms by (simp add: abs_mult)
  ultimately show ?thesis by simp
qed

lemma funpow_fixed: "f p = p \<Longrightarrow> (f ^^ n) p = p"
  by (induction n) simp_all

lemma axis_settles:
  assumes "0 \<le> \<alpha>" "\<alpha> < 1"
  shows "\<exists>N q. real_of_int \<bar>t - q\<bar> * (1 - \<alpha>) < 1
               \<and> (\<forall>n \<ge> N. (smooth_axis \<alpha> t ^^ n) p = q)"
proof (induction p rule: measure_induct_rule [where f = "\<lambda>p. nat \<bar>t - p\<bar>"])
  case (less p)
  let ?f = "smooth_axis \<alpha> t"
  show ?case
  proof (cases "?f p = p")
    case True
    then have "\<forall>n \<ge> 0. (?f ^^ n) p = p" by (simp add: funpow_fixed)
    then show ?thesis using smooth_axis_fixed_bound [OF assms True] by blast
  next
    case False
    have "nat \<bar>t - ?f p\<bar> < nat \<bar>t - p\<bar>"
      using smooth_axis_between [OF assms, of p t] False by linarith
    from less.IH [OF this] obtain N q where
      q: "real_of_int \<bar>t - q\<bar> * (1 - \<alpha>) < 1" and st: "\<forall>n \<ge> N. (?f ^^ n) (?f p) = q"
      by blast
    have "(?f ^^ n) p = q" if n: "n \<ge> Suc N" for n
    proof -
      obtain m where m: "n = Suc m" "m \<ge> N" using n by (cases n) auto
      show ?thesis using st m by (simp add: funpow_swap1)
    qed
    then show ?thesis using q by blast
  qed
qed

lemma pixel_target_update [simp]:
  "pixel_target x y (c\<lparr>last_mouse_position := p\<rparr>) = pixel_target x y c"
  by (simp add: pixel_target_def)

lemma move_step_Some:
  assumes "\<not> emergency_stop c" "\<forall>a b. \<not> raises w (MoveTo a b)"
    and "last_mouse_position c = Some (px, py)"
  shows "\<exists>w'. move_step x y (c, w)
      = (c\<lparr>last_mouse_position :=
             Some (smooth_axis (mouse_smoothing c) (fst (pixel_target x y c)) px,
                   smooth_axis (mouse_smoothing c) (snd (pixel_target x y c)) py)\<rparr>, w')
      \<and> raises w' = raises w"
  using assms
  by (simp add: move_step_def move_mouse_def pixel_target_def smooth_axis_def pyautogui_def
      Let_def)

lemma move_step_None:
  assumes "\<not> emergency_stop c" "\<forall>a b. \<not> raises w (MoveTo a b)"
    and "last_mouse_position c = None"
  shows "\<exists>w'. move_step x y (c, w)
      = (c\<lparr>last_mouse_position := Some (pixel_target x y c)\<rparr>, w')
      \<and> raises w' = raises w"
  using assms
  by (simp add: move_step_def move_mouse_def pixel_target_def pyautogui_def Let_def)

lemma move_iter_Some:
  assumes "\<not> emergency_stop c" "\<forall>a b. \<not> raises w (MoveTo a b)"
    and "last_mouse_position c = Some (px, py)"
  shows "\<exists>w'. (move_step x y ^^ n) (c, w)
      = (c\<lparr>last_mouse_position :=
             Some ((smooth_axis (mouse_smoothing c) (fst (pixel_target x y c)) ^^ n) px,
                   (smooth_axis (mouse_smoothing c) (snd (pixel_target x y c)) ^^ n) py)\<rparr>, w')
      \<and> raises w' = raises w"
proof (induction n)
  case 0
  then show ?case using assms(3) by simp
next
  case (Suc n)
  then obtain w' where
    it: "(move_step x y ^^ n) (c, w)
      = (c\<lparr>last_mouse_position :=
             Some ((smooth_axis (mouse_smoothing c) (fst (pixel_target x y c)) ^^ n) px,
                   (smooth_axis (mouse_smoothing c) (snd (pixel_target x y c)) ^^ n) py)\<rparr>, w')"
    and r: "raises w' = raises w" by blast
  let ?c = "c\<lparr>last_mouse_position :=
             Some ((smooth_axis (mouse_smoothing c) (fst (pixel_target x y c)) ^^ n) px,
                   (smooth_axis (mouse_smoothing c) (snd (pixel_target x y c)) ^^ n) py)\<rparr>"
  have "\<exists>w''. move_step x y (?c, w')
      = (?c\<lparr>last_mouse_position :=
             Some (smooth_axis (mouse_smoothing ?c) (fst (pixel_target x y ?c))
                     ((smooth_axis (mouse_smoothing c) (fst (pixel_target x y c)) ^^ n) px),
                   smooth_axis (mouse_smoothing ?c) (snd (pixel_target x y ?c))
                     ((smooth_axis (mouse_smoothing c) (snd (pixel_target x y c)) ^^ n) py))\<rparr>, w'')
      \<and> raises w'' = raises w'"
    by (rule move_step_Some) (use assms r in simp_all)
  then show ?case using it r by auto
qed

text \<open>
  C4, amended: for every target and every smoothing factor \<open>\<alpha>\<close> with \<open>0 \<le> \<alpha> < 1\<close>
  (emergency stop off, the pointer primitive not raising), iterating \<open>move_mouse\<close> on the
  same target brings the stored output, after finitely many iterations, to a position
  where it stays, and there \<open>|output - target| * (1 - \<alpha>) < 1\<close> in each coordinate. Every
  blend is truncated to a whole pixel, so the output need not reach the target.
\<close>

theorem pointer_filter_settles:
  assumes "0 \<le> mouse_smoothing c" "mouse_smoothing c < 1"
    and "\<not> emergency_stop c" "\<forall>a b. \<not> raises w (MoveTo a b)"
  shows "\<exists>N px py.
           (\<forall>n \<ge> N. last_mouse_position (fst ((move_step x y ^^ n) (c, w))) = Some (px, py))
           \<and> real_of_int \<bar>fst (pixel_target x y c) - px\<bar> * (1 - mouse_smoothing c) < 1
           \<and> real_of_int \<bar>snd (pixel_target x y c) - py\<bar> * (1 - mouse_smoothing c) < 1"
proof -
  let ?a = "mouse_smoothing c"
  let ?tx = "fst (pixel_target x y c)" and ?ty = "snd (pixel_target x y c)"
  have from_some: ?thesis
    if pos: "last_mouse_position c' = Some (px0, py0)"
      and shift: "\<And>n. (move_step x y ^^ (n + k)) (c, w) = (move_step x y ^^ n) (c', w')"
      and rw: "raises w' = raises w"
      and c': "mouse_smoothing c' = ?a" "pixel_target x y c' = pixel_target x y c"
              "\<not> emergency_stop c'"
    for c' w' px0 py0 k
  proof -
    obtain Nx qx where qx: "real_of_int \<bar>?tx - qx\<bar> * (1 - ?a) < 1"
      and sx: "\<forall>n \<ge> Nx. (smooth_axis ?a ?tx ^^ n) px0 = qx"
      using axis_settles [OF assms(1,2)] by blast
    obtain Ny qy where qy: "real_of_int \<bar>?ty - qy\<bar> * (1 - ?a) < 1"
      and sy: "\<forall>n \<ge> Ny. (smooth_axis ?a ?ty ^^ n) py0 = qy"
      using axis_settles [OF assms(1,2)] by blast
    have "last_mouse_position (fst ((move_step x y ^^ n) (c, w))) = Some (qx, qy)"
      if n: "n \<ge> max Nx Ny + k" for n
    proof -
      define m where "m = n - k"
      have m: "n = m + k" "m \<ge> max Nx Ny" using n unfolding m_def by linarith+
      have raises': "\<forall>a b. \<not> raises w' (MoveTo a b)" using assms(4) rw by simp
      obtain w'' where "(move_step x y ^^ m) (c', w')
        = (c'\<lparr>last_mouse_position :=
               Some ((smooth_axis (mouse_smoothing c') (fst (pixel_target x y c')) ^^ m) px0,
                     (smooth_axis (mouse_smoothing c') (snd (pixel_target x y c')) ^^ m) py0)\<rparr>,
           w'')"
        using move_iter_Some [OF c'(3) raises' pos] by blast
      then show ?thesis using shift [of m] m sx sy c' by simp
    qed
    then show ?thesis using qx qy by blast
  qed
  show ?thesis
  proof (cases "last_mouse_position c")
    case (Some p)
    obtain px0 py0 where p: "p = (px0, py0)" by (cases p)
    have pos: "last_mouse_position c = Some (px0, py0)" using Some p by simp
    have shift: "(move_step x y ^^ (n + 0)) (c, w) = (move_step x y ^^ n) (c, w)" for n
      by simp
    show ?thesis
      by (rule from_some [OF pos shift]) (use assms(3) in simp_all)
  next
    case None
    obtain w1 where s1: "move_step x y (c, w)
        = (c\<lparr>last_mouse_position := Some (pixel_target x y c)\<rparr>, w1)"
      and r1: "raises w1 = raises w"
      using move_step_None [OF assms(3,4) None] by blast
    let ?c1 = "c\<lparr>last_mouse_position := Some (pixel_target x y c)\<rparr>"
    have pos: "last_mouse_position ?c1 = Some (fst (pixel_target x y c), snd (pixel_target x y c))"
      by simp
    have shift: "(move_step x y ^^ (n + 1)) (c, w) = (move_step x y ^^ n) (?c1, w1)" for n
      using s1 by (simp add: funpow_swap1)
    show ?thesis
      by (rule from_some [OF pos shift r1]) (use assms(3) in simp_all)
  qed
qed


lemma near0_facts:
  "mouse_smoothing near0 = 3 / 10" "\<not> emergency_stop near0"
  "last_mouse_position near0 = Some (959, 540)"
  "pixel_target (1 / 2) (1 / 2) near0 = (960, 540)"
  by (simp_all add: near0_def controller0_def ActionController_init_def pixel_target_def
      py_int_def)

lemma near0_fixed:
  "smooth_axis (3 / 10) 960 959 = 959" "smooth_axis (3 / 10) 540 540 = 540"
  by (simp_all add: smooth_axis_def py_int_def)

text \<open>
  C4, as stated, fails: on a 1920 by 1080 screen with the default smoothing 0.3, the last
  output at \<open>(959, 540)\<close> and the target at the centre \<open>(960, 540)\<close>, the blend is
  \<open>959.7\<close>, truncated to \<open>959\<close>: the call succeeds, the controller is unchanged, and
  every further iteration leaves the output one pixel from the target.
\<close>

theorem pointer_filter_stalls_counterexample:
  "mouse_smoothing near0 = 3 / 10
   \<and> pixel_target (1 / 2) (1 / 2) near0 = (960, 540)
   \<and> fst (move_mouse (1 / 2) (1 / 2) near0 env0)
   \<and> fst (snd (move_mouse (1 / 2) (1 / 2) near0 env0)) = near0
   \<and> (\<forall>n. last_mouse_position (fst ((move_step (1 / 2) (1 / 2) ^^ n) (near0, env0)))
            = Some (959, 540))"
proof -
  have ok: "\<forall>a b. \<not> raises env0 (MoveTo a b)" by (simp add: env0_def)
  have one: "fst (move_mouse (1 / 2) (1 / 2) near0 env0)
             \<and> fst (snd (move_mouse (1 / 2) (1 / 2) near0 env0)) = near0"
    by (simp add: move_mouse_def near0_def controller0_def ActionController_init_def
        env0_def pyautogui_def py_int_def Let_def)
  have "last_mouse_position (fst ((move_step (1 / 2) (1 / 2) ^^ n) (near0, env0)))
          = Some (959, 540)" for n
  proof -
    obtain w' where "(move_step (1 / 2) (1 / 2) ^^ n) (near0, env0)
      = (near0\<lparr>last_mouse_position :=
           Some ((smooth_axis (mouse_smoothing near0)
                    (fst (pixel_target (1 / 2) (1 / 2) near0)) ^^ n) 959,
                 (smooth_axis (mouse_smoothing near0)
                    (snd (pixel_target (1 / 2) (1 / 2) near0)) ^^ n) 540)\<rparr>, w')"
      using move_iter_Some [OF near0_facts(2) ok near0_facts(3)] by blast
    then show ?thesis by (simp add: near0_facts funpow_fixed near0_fixed)
  qed
  then show ?thesis using one near0_facts by simp
qed

theorem pointer_filter_settles_witness:
  "0 \<le> mouse_smoothing near0 \<and> mouse_smoothing near0 < 1 \<and> \<not> emergency_stop near0
   \<and> (\<forall>a b. \<not> raises env0 (MoveTo a b))
   \<and> (\<exists>N px py.
         (\<forall>n \<ge> N. last_mouse_position (fst ((move_step (1 / 2) (1 / 2) ^^ n) (near0, env0)))
                    = Some (px, py))
         \<and> real_of_int \<bar>960 - px\<bar> * (1 - 3 / 10) < 1
         \<and> real_of_int \<bar>540 - py\<bar> * (1 - 3 / 10) < 1)"
proof -
  have a: "0 \<le> mouse_smoothing near0" "mouse_smoothing near0 < 1"
    by (simp_all add: near0_facts)
  have ok: "\<forall>a b. \<not> raises env0 (MoveTo a b)" by (simp add: env0_def)
  show ?thesis
    using pointer_filter_settles [OF a near0_facts(2) ok, of "1 / 2" "1 / 2"] a ok
    by (simp add: near0_facts)
qed

end
